theory Spec2Isabelle
  imports Complex_Main "HOL-Library.Multiset" "HOL-Library.List_Lexorder" "HOL-Library.Char_ord"
begin

chapter \<open>Org-chart layout and viewport: a shallow embedding\<close>

text \<open>
  The development follows \<^verbatim>\<open>src/SimpleOrgChart.js\<close> and the first class body of
  \<^verbatim>\<open>src/HTMLOrgChart.js\<close>.  JavaScript numbers are idealised as \<^typ>\<open>real\<close>:
  every arithmetic operation is exact, there is no rounding, no NaN and no infinity.
\<close>

section \<open>Viewport of SimpleOrgChart: adjustZoom, setZoom, wheel\<close>











section \<open>Viewport of HTMLOrgChart: handleWheel\<close>





section \<open>processData: from the flat record list to the hierarchy\<close>

text \<open>
  The values an \<^verbatim>\<open>id\<close> or \<^verbatim>\<open>pid\<close> field can hold.  An absent field reads as
  \<^verbatim>\<open>undefined\<close>.  Keys of a JavaScript \<^verbatim>\<open>Map\<close> and members of a \<^verbatim>\<open>Set\<close> are compared
  without coercion, so the number 1 and the string "1" are different keys, as they are
  different values here.
\<close>

datatype jsval = JUndefined | JNull | JNum int | JStr string

text \<open>The truthiness test applied to \<^verbatim>\<open>node.pid\<close> by \<^verbatim>\<open>node.pid && ...\<close>.\<close>

fun truthy :: "jsval \<Rightarrow> bool" where
  "truthy JUndefined \<longleftrightarrow> False"
| "truthy JNull \<longleftrightarrow> False"
| "truthy (JNum n) \<longleftrightarrow> n \<noteq> 0"
| "truthy (JStr s) \<longleftrightarrow> s \<noteq> []"

text \<open>An input record: \<^verbatim>\<open>{id, pid, name, ...}\<close>.\<close>

record input_record =
  nid :: jsval
  pid :: jsval
  name :: string

text \<open>
  A processed node \<^verbatim>\<open>{...node, children: [], level: 0}\<close>.  The objects live in
  \<^verbatim>\<open>nodeMap\<close>, one per id, and a \<^verbatim>\<open>children\<close> array holds references to them: the model
  keeps the referenced node's id, which is its key in \<^verbatim>\<open>nodeMap\<close>.
\<close>

record processed_node =
  source :: input_record
  children :: "jsval list"
  level :: nat

type_synonym node_map = "jsval \<rightharpoonup> processed_node"

text \<open>
  The first loop (lines 98-107 of SimpleOrgChart.js, 77-86 of HTMLOrgChart.js): keep the
  first record of every id.  \<open>seen\<close> is \<^verbatim>\<open>seenIds\<close>.
\<close>

fun dedupe :: "jsval list \<Rightarrow> input_record list \<Rightarrow> input_record list" where
  "dedupe seen [] = []"
| "dedupe seen (r # rs) =
     (if nid r \<in> set seen then dedupe seen rs else r # dedupe (nid r # seen) rs)"

definition uniqueData :: "input_record list \<Rightarrow> input_record list" where
  "uniqueData data = dedupe [] data"

text \<open>The first pass (lines 112-119): one processed node per surviving record.\<close>

definition firstPass :: "input_record list \<Rightarrow> node_map" where
  "firstPass rs =
     fold (\<lambda>r m. m(nid r \<mapsto> \<lparr> source = r, children = [], level = 0 \<rparr>)) rs Map.empty"

text \<open>
  An in-place update of the object stored under a key.  Every key \<^verbatim>\<open>processData\<close>
  updates was entered by the first pass (\<open>dom_firstPass\<close> and \<open>dom_secondPass\<close> below);
  on an absent key the store is left as it is.
\<close>

definition modify :: "node_map \<Rightarrow> jsval \<Rightarrow> (processed_node \<Rightarrow> processed_node) \<Rightarrow> node_map" where
  "modify m k f = (case m k of None \<Rightarrow> m | Some v \<Rightarrow> m(k \<mapsto> f v))"

definition levelOf :: "node_map \<Rightarrow> jsval \<Rightarrow> nat" where
  "levelOf m k = (case m k of None \<Rightarrow> 0 | Some v \<Rightarrow> level v)"

definition childrenOf :: "node_map \<Rightarrow> jsval \<Rightarrow> jsval list" where
  "childrenOf m k = (case m k of None \<Rightarrow> [] | Some v \<Rightarrow> children v)"

text \<open>
  One iteration of the second pass (lines 124-137 of SimpleOrgChart.js, 103-116 of
  HTMLOrgChart.js) on the pair \<^verbatim>\<open>(nodeMap, rootNodes)\<close>.  The two assignments of the
  first branch are applied to the store one after the other, so a record that names
  itself as parent updates one and the same object twice, as the code does.
\<close>

definition secondPassStep ::
    "input_record \<Rightarrow> node_map \<times> jsval list \<Rightarrow> node_map \<times> jsval list" where
  "secondPassStep r st =
     (let m = fst st; rootNodes = snd st in
      if truthy (pid r) \<and> m (pid r) \<noteq> None then
        (let m1 = modify m (nid r) (\<lambda>n. n\<lparr>level := levelOf m (pid r) + 1\<rparr>);
             m2 = modify m1 (pid r) (\<lambda>p. p\<lparr>children := children p @ [nid r]\<rparr>)
         in (m2, rootNodes))
      else
        (modify m (nid r) (\<lambda>n. n\<lparr>level := 0\<rparr>), rootNodes @ [nid r]))"

definition secondPass ::
    "input_record list \<Rightarrow> node_map \<times> jsval list \<Rightarrow> node_map \<times> jsval list" where
  "secondPass rs st = fold secondPassStep rs st"

text \<open>
  \<^verbatim>\<open>processData\<close> up to line 137 (116 in HTMLOrgChart.js): the node map and the root
  list when the hierarchy has been built.  What follows in the source (removal of
  repeated ids in the SimpleOrgChart variant, sorting of sibling lists, initial
  expansion) writes no \<^verbatim>\<open>level\<close> and adds no entry to a \<^verbatim>\<open>children\<close> array.
\<close>

definition buildHierarchy :: "input_record list \<Rightarrow> node_map \<times> jsval list" where
  "buildHierarchy data =
     (let u = uniqueData data in secondPass u (firstPass u, []))"

definition nodeMapOf :: "input_record list \<Rightarrow> node_map" where
  "nodeMapOf data = fst (buildHierarchy data)"

definition rootNodesOf :: "input_record list \<Rightarrow> jsval list" where
  "rootNodesOf data = snd (buildHierarchy data)"

text \<open>The children relation of a node map: \<open>(p, c)\<close> when \<open>c\<close> is in \<open>p\<close>'s children array.\<close>

definition childRel :: "node_map \<Rightarrow> (jsval \<times> jsval) set" where
  "childRel m = {(p, c). c \<in> set (childrenOf m p)}"

text \<open>The nodes of the chart: those reached from the root list by children links.\<close>

inductive reachable :: "node_map \<Rightarrow> jsval list \<Rightarrow> jsval \<Rightarrow> bool"
  for m :: node_map and roots :: "jsval list" where
  reach_root: "c \<in> set roots \<Longrightarrow> reachable m roots c"
| reach_child: "reachable m roots p \<Longrightarrow> c \<in> set (childrenOf m p) \<Longrightarrow> reachable m roots c"

code_pred reachable .

text \<open>A record whose parent reference resolves: the test of the second pass.\<close>

definition attached :: "jsval set \<Rightarrow> input_record \<Rightarrow> bool" where
  "attached D r \<longleftrightarrow> truthy (pid r) \<and> pid r \<in> D"

section \<open>The tree held in hierarchicalData\<close>

text \<open>
  A node object together with its \<^verbatim>\<open>children\<close> array, unfolded from the root list: id,
  name and children.  \<open>'i\<close> is the type of ids.
\<close>

datatype 'i node = Node (node_id: 'i) (node_name: string) (node_children: "'i node list")

text \<open>The ids of a forest in pre-order, and the ids paired with their depth.\<close>

fun ids_of :: "'i node \<Rightarrow> 'i list" and ids_forest :: "'i node list \<Rightarrow> 'i list" where
  "ids_of (Node i nm cs) = i # ids_forest cs"
| "ids_forest [] = []"
| "ids_forest (n # ns) = ids_of n @ ids_forest ns"

fun depths_of :: "'i node \<Rightarrow> nat \<Rightarrow> ('i \<times> nat) list"
  and depths_forest :: "'i node list \<Rightarrow> nat \<Rightarrow> ('i \<times> nat) list" where
  "depths_of (Node i nm cs) d = (i, d) # depths_forest cs (d + 1)"
| "depths_forest [] d = []"
| "depths_forest (n # ns) d = depths_of n d @ depths_forest ns d"

section \<open>configureInitialExpansion\<close>

text \<open>The two options the expansion policy reads.\<close>

record expansion_options =
  initiallyExpanded :: bool
  initialVisibleLevels :: int

text \<open>
  \<^verbatim>\<open>this.options.initiallyExpanded || level < this.options.initialVisibleLevels\<close>
  (HTMLOrgChart.js, line 134) and
  \<^verbatim>\<open>this.options.initiallyExpanded && level < this.options.initialVisibleLevels\<close>
  (SimpleOrgChart.js, line 173).
\<close>

definition expanded_html :: "expansion_options \<Rightarrow> nat \<Rightarrow> bool" where
  "expanded_html opts lvl \<longleftrightarrow> initiallyExpanded opts \<or> int lvl < initialVisibleLevels opts"

definition expanded_simple :: "expansion_options \<Rightarrow> nat \<Rightarrow> bool" where
  "expanded_simple opts lvl \<longleftrightarrow> initiallyExpanded opts \<and> int lvl < initialVisibleLevels opts"

text \<open>
  The inner function \<^verbatim>\<open>configureExpansion(nodes, level)\<close>, the same in both variants up
  to the policy \<open>pol\<close>: every node's entry of \<^verbatim>\<open>expandedNodes\<close> is set, then its children
  are visited one level deeper.
\<close>

fun configureExpansion ::
    "(nat \<Rightarrow> bool) \<Rightarrow> 'i node list \<Rightarrow> nat \<Rightarrow> ('i \<rightharpoonup> bool) \<Rightarrow> ('i \<rightharpoonup> bool)"
  and configureNode ::
    "(nat \<Rightarrow> bool) \<Rightarrow> 'i node \<Rightarrow> nat \<Rightarrow> ('i \<rightharpoonup> bool) \<Rightarrow> ('i \<rightharpoonup> bool)" where
  "configureExpansion pol [] lvl m = m"
| "configureExpansion pol (n # ns) lvl m =
     configureExpansion pol ns lvl (configureNode pol n lvl m)"
| "configureNode pol (Node i nm cs) lvl m =
     (let expanded = pol lvl;
          m' = m(i \<mapsto> expanded)
      in if cs \<noteq> [] then configureExpansion pol cs (lvl + 1) m' else m')"

definition configureInitialExpansion_html ::
    "expansion_options \<Rightarrow> 'i node list \<Rightarrow> ('i \<rightharpoonup> bool) \<Rightarrow> ('i \<rightharpoonup> bool)" where
  "configureInitialExpansion_html opts hierarchicalData expandedNodes =
     configureExpansion (expanded_html opts) hierarchicalData 0 expandedNodes"

definition configureInitialExpansion_simple ::
    "expansion_options \<Rightarrow> 'i node list \<Rightarrow> ('i \<rightharpoonup> bool) \<Rightarrow> ('i \<rightharpoonup> bool)" where
  "configureInitialExpansion_simple opts hierarchicalData expandedNodes =
     configureExpansion (expanded_simple opts) hierarchicalData 0 expandedNodes"

text \<open>The default options of both constructors.\<close>

definition defaultOptions :: expansion_options where
  "defaultOptions = \<lparr> initiallyExpanded = False, initialVisibleLevels = 1 \<rparr>"

section \<open>sortNodes with sortBy = 'name'\<close>




















section \<open>The layout of SimpleOrgChart: calculateDimensions\<close>

record layout_options =
  nodeWidth :: real
  horizontalSpacing :: real

text \<open>
  An entry \<^verbatim>\<open>{node, children, width, level}\<close> of the temporary tree of visible nodes.
  (Its \<^verbatim>\<open>posX\<close> field is set to 0 and never read.)
\<close>

datatype 'i info =
  Info (info_node: "'i node") (info_children: "'i info list") (info_width: real) (info_level: nat)

text \<open>
  \<^verbatim>\<open>buildVisibleTree(nodes, level)\<close>, lines 294-339: the loop over \<^verbatim>\<open>nodes\<close> is
  \<open>buildLoop\<close>, its body \<open>buildInfo\<close>; the pair returned is \<^verbatim>\<open>(tree.nodes, tree.totalWidth)\<close>.
  A node's children are laid out when \<^verbatim>\<open>expandedNodes.get(node.id)\<close> is true.
\<close>

fun buildVisibleTree ::
    "layout_options \<Rightarrow> ('i \<rightharpoonup> bool) \<Rightarrow> 'i node list \<Rightarrow> nat \<Rightarrow> 'i info list \<times> real"
  and buildLoop ::
    "layout_options \<Rightarrow> ('i \<rightharpoonup> bool) \<Rightarrow> 'i node list \<Rightarrow> nat \<Rightarrow> 'i info list \<times> real"
  and buildInfo ::
    "layout_options \<Rightarrow> ('i \<rightharpoonup> bool) \<Rightarrow> 'i node \<Rightarrow> nat \<Rightarrow> 'i info" where
  "buildVisibleTree opts ex nodes lvl =
     (let tree = buildLoop opts ex nodes lvl
      in (fst tree,
          if snd tree > 0 then snd tree - horizontalSpacing opts else snd tree))"
| "buildLoop opts ex [] lvl = ([], 0)"
| "buildLoop opts ex (n # ns) lvl =
     (let nodeInfo = buildInfo opts ex n lvl;
          tree = buildLoop opts ex ns lvl
      in (nodeInfo # fst tree, (info_width nodeInfo + horizontalSpacing opts) + snd tree))"
| "buildInfo opts ex (Node i nm cs) lvl =
     (let nodeSpace = nodeWidth opts in
      if cs \<noteq> [] \<and> ex i = Some True then
        (let subtree = buildVisibleTree opts ex cs (lvl + 1);
             minWidth = max nodeSpace (snd subtree);
             w = (if length cs > 3 then minWidth + horizontalSpacing opts * (1/2) else minWidth)
         in Info (Node i nm cs) (fst subtree) w lvl)
      else Info (Node i nm cs) [] nodeSpace lvl)"

text \<open>
  The two structures \<^verbatim>\<open>calculateDimensions\<close> resets and \<^verbatim>\<open>assignXPositions\<close> fills: the
  array \<^verbatim>\<open>nodesAtLevel\<close>, as its entries by index (an index never assigned reads as the
  empty list) and its length, and the object \<^verbatim>\<open>nodePositions\<close> from id to \<^verbatim>\<open>{x, level}\<close>.
\<close>

record position =
  pos_x :: real
  pos_level :: nat

record 'i layout_state =
  nodesAtLevel :: "nat \<Rightarrow> 'i node list"
  nodesAtLevel_length :: nat
  nodePositions :: "'i \<rightharpoonup> position"

definition emptyLayout :: "'i layout_state" where
  "emptyLayout = \<lparr> nodesAtLevel = (\<lambda>_. []), nodesAtLevel_length = 0, nodePositions = Map.empty \<rparr>"

text \<open>\<^verbatim>\<open>if (!this.nodesAtLevel[currentLevel]) this.nodesAtLevel[currentLevel] = []\<close>\<close>

definition ensureLevel :: "nat \<Rightarrow> 'i layout_state \<Rightarrow> 'i layout_state" where
  "ensureLevel lvl st =
     (if lvl < nodesAtLevel_length st then st else st\<lparr>nodesAtLevel_length := lvl + 1\<rparr>)"

definition pushNode :: "nat \<Rightarrow> 'i node \<Rightarrow> 'i layout_state \<Rightarrow> 'i layout_state" where
  "pushNode lvl n st = st\<lparr>nodesAtLevel := (nodesAtLevel st)(lvl := nodesAtLevel st lvl @ [n])\<rparr>"

definition setPosition :: "'i \<Rightarrow> real \<Rightarrow> nat \<Rightarrow> 'i layout_state \<Rightarrow> 'i layout_state" where
  "setPosition i xv lvl st =
     st\<lparr>nodePositions := (nodePositions st)(i \<mapsto> \<lparr> pos_x = xv, pos_level = lvl \<rparr>)\<rparr>"

text \<open>\<^verbatim>\<open>this.nodePositions[id]?.x || 0\<close>\<close>

definition xOrZero :: "('i \<rightharpoonup> position) \<Rightarrow> 'i \<Rightarrow> real" where
  "xOrZero ps i = (case ps i of None \<Rightarrow> 0 | Some p \<Rightarrow> pos_x p)"

text \<open>The inner function \<^verbatim>\<open>calculateTotalWidth\<close>, lines 1366-1376.\<close>

definition calculateTotalWidth :: "layout_options \<Rightarrow> 'a list \<Rightarrow> real" where
  "calculateTotalWidth opts nodes =
     (if nodes = [] then 0
      else fold (\<lambda>_ totalWidth. totalWidth + (nodeWidth opts + horizontalSpacing opts)) nodes 0
           - horizontalSpacing opts)"

text \<open>
  The x written by the second pass for a node without children (and in its branch for
  an empty list of child positions): \<open>startX\<close> is the cursor as the first pass left it.
\<close>

definition defaultX :: "layout_options \<Rightarrow> real \<Rightarrow> nat \<Rightarrow> real" where
  "defaultX opts startX i =
     startX - horizontalSpacing opts - nodeWidth opts / 2
       + real i * (nodeWidth opts + horizontalSpacing opts)"

text \<open>
  The second loop of \<^verbatim>\<open>assignXPositions\<close>, lines 1413-1443, from index \<open>i\<close> on.
  \<^verbatim>\<open>Math.min\<close> and \<^verbatim>\<open>Math.max\<close> of a non-empty argument list are the folds of \<open>min\<close> and
  \<open>max\<close>.
\<close>

fun secondPassX ::
    "layout_options \<Rightarrow> 'i info list \<Rightarrow> nat \<Rightarrow> real \<Rightarrow> nat \<Rightarrow> 'i layout_state \<Rightarrow> 'i layout_state"
  where
  "secondPassX opts [] i startX lvl st = st"
| "secondPassX opts (nodeInfo # rest) i startX lvl st =
     (let st' =
        (if info_children nodeInfo \<noteq> [] then
           (let childrenIds = map (\<lambda>h. node_id (info_node h)) (info_children nodeInfo);
                childrenXPositions = map (xOrZero (nodePositions st)) childrenIds
            in case childrenXPositions of
                 x0 # xr \<Rightarrow>
                   (let minX = fold min xr x0; maxX = fold max xr x0
                    in setPosition (node_id (info_node nodeInfo)) ((minX + maxX) / 2) lvl st)
               | [] \<Rightarrow>
                   setPosition (node_id (info_node nodeInfo)) (defaultX opts startX i) lvl st)
         else setPosition (node_id (info_node nodeInfo)) (defaultX opts startX i) lvl st)
      in secondPassX opts rest (i + 1) startX lvl st')"

text \<open>
  \<^verbatim>\<open>assignXPositions(treeNodes, startX, currentLevel)\<close>, lines 1359-1444.  \<open>firstPassX\<close> is
  the first loop (lines 1378-1411); it returns the state and the cursor \<^verbatim>\<open>startX\<close> it has
  advanced, which the second loop reads.
\<close>

fun assignXPositions ::
    "layout_options \<Rightarrow> 'i info list \<Rightarrow> real \<Rightarrow> nat \<Rightarrow> 'i layout_state \<Rightarrow> 'i layout_state"
  and firstPassX ::
    "layout_options \<Rightarrow> 'i info list \<Rightarrow> real \<Rightarrow> nat \<Rightarrow> 'i layout_state
       \<Rightarrow> 'i layout_state \<times> real" where
  "assignXPositions opts treeNodes startX lvl st =
     (let fp = firstPassX opts treeNodes startX lvl (ensureLevel lvl st)
      in secondPassX opts treeNodes 0 (snd fp) lvl (fst fp))"
| "firstPassX opts [] startX lvl st = (st, startX)"
| "firstPassX opts (Info n cs w l # rest) startX lvl st =
     (let st1 = pushNode lvl n st in
      if cs \<noteq> [] then
        (let childrenWidth = calculateTotalWidth opts cs;
             childrenStartX =
               (if nodeWidth opts > childrenWidth
                then startX + (nodeWidth opts - childrenWidth) / 2 else startX);
             st2 = assignXPositions opts cs childrenStartX (lvl + 1) st1
         in firstPassX opts rest (startX + (w + horizontalSpacing opts)) lvl st2)
      else
        (let st2 = setPosition (node_id n) (startX + w / 2) lvl st1
         in firstPassX opts rest (startX + (w + horizontalSpacing opts)) lvl st2))"







text \<open>
  The positions right after \<^verbatim>\<open>assignXPositions\<close> (line 345), and the layout when the
  loop over levels has ended (line 374).
\<close>

definition assignedLayout ::
    "layout_options \<Rightarrow> ('i \<rightharpoonup> bool) \<Rightarrow> 'i node list \<Rightarrow> 'i layout_state" where
  "assignedLayout opts ex hierarchicalData =
     (let visibleTree = buildVisibleTree opts ex hierarchicalData 0
      in assignXPositions opts (fst visibleTree) (horizontalSpacing opts) 0 emptyLayout)"



text \<open>The id of a visible-tree entry, and all ids of a visible forest.\<close>

definition info_id :: "'i info \<Rightarrow> 'i" where
  "info_id h = node_id (info_node h)"

fun info_ids_of :: "'i info \<Rightarrow> 'i list" and info_ids :: "'i info list \<Rightarrow> 'i list" where
  "info_ids_of (Info n cs w l) = node_id n # info_ids cs"
| "info_ids [] = []"
| "info_ids (h # hs) = info_ids_of h @ info_ids hs"




text \<open>
  The visible nodes of a forest with their depth, in pre-order: a node's children are
  visible when it has children and is expanded, the test \<^verbatim>\<open>buildVisibleTree\<close>,
  \<^verbatim>\<open>calculateDepth\<close> and \<^verbatim>\<open>adjustSubtreePositions\<close> all make.  \<open>below\<close> lists the visible
  proper descendants of a node.
\<close>

fun vnodes_of :: "('i \<rightharpoonup> bool) \<Rightarrow> 'i node \<Rightarrow> nat \<Rightarrow> ('i node \<times> nat) list"
  and vnodes :: "('i \<rightharpoonup> bool) \<Rightarrow> 'i node list \<Rightarrow> nat \<Rightarrow> ('i node \<times> nat) list" where
  "vnodes_of ex (Node i nm cs) d =
     (Node i nm cs, d) # (if cs \<noteq> [] \<and> ex i = Some True then vnodes ex cs (d + 1) else [])"
| "vnodes ex [] d = []"
| "vnodes ex (n # ns) d = vnodes_of ex n d @ vnodes ex ns d"


definition vid :: "'i node \<times> nat \<Rightarrow> 'i" where
  "vid p = node_id (fst p)"

text \<open>The visible nodes at depth \<open>d\<close>, from left to right.\<close>

definition level_nodes :: "('i \<rightharpoonup> bool) \<Rightarrow> 'i node list \<Rightarrow> nat \<Rightarrow> 'i node list" where
  "level_nodes ex hierarchicalData d =
     map fst (filter (\<lambda>p. snd p = d) (vnodes ex hierarchicalData 0))"

text \<open>The nodes of a visible forest (the temporary tree) with their depth.\<close>

fun inodes_of :: "'i info \<Rightarrow> nat \<Rightarrow> ('i node \<times> nat) list"
  and inodes :: "'i info list \<Rightarrow> nat \<Rightarrow> ('i node \<times> nat) list" where
  "inodes_of (Info n cs w l) d = (n, d) # inodes cs (d + 1)"
| "inodes [] d = []"
| "inodes (h # hs) d = inodes_of h d @ inodes hs d"

section \<open>Viewport theorems\<close>










section \<open>The hierarchy built by processData\<close>

subsection \<open>De-duplication and the first pass\<close>

lemma dedupe_not_seen: "k \<in> set seen \<Longrightarrow> k \<notin> nid ` set (dedupe seen rs)"
  by (induction rs arbitrary: seen) auto

lemma dedupe_distinct: "distinct (map nid (dedupe seen rs))"
proof (induction rs arbitrary: seen)
  case Nil
  show ?case by simp
next
  case (Cons r rs)
  have "nid r \<notin> nid ` set (dedupe (nid r # seen) rs)"
    by (rule dedupe_not_seen) simp
  with Cons show ?case by simp
qed

lemma uniqueData_distinct: "distinct (map nid (uniqueData data))"
  by (simp add: uniqueData_def dedupe_distinct)

lemma dom_fold_firstPass:
  "dom (fold (\<lambda>r m. m(nid r \<mapsto> \<lparr> source = r, children = [], level = 0 \<rparr>)) rs m0)
     = dom m0 \<union> nid ` set rs"
  by (induction rs arbitrary: m0) auto

lemma dom_firstPass: "dom (firstPass rs) = nid ` set rs"
  by (simp add: firstPass_def dom_fold_firstPass)

lemma children_fold_firstPass:
  "childrenOf (fold (\<lambda>r m. m(nid r \<mapsto> \<lparr> source = r, children = [], level = 0 \<rparr>)) rs m0) k
     = (if k \<in> nid ` set rs then [] else childrenOf m0 k)"
  by (induction rs arbitrary: m0) (auto simp: childrenOf_def)

lemma childrenOf_firstPass: "childrenOf (firstPass rs) k = []"
  by (simp add: firstPass_def children_fold_firstPass) (simp add: childrenOf_def)

subsection \<open>One step of the second pass\<close>

lemma modify_apply:
  "modify m k f k' = (if k' = k then map_option f (m k) else m k')"
  by (auto simp: modify_def split: option.splits)

lemma dom_modify: "dom (modify m k f) = dom m"
  by (auto simp: modify_apply dom_def)

lemma dom_step: "dom (fst (secondPassStep r st)) = dom (fst st)"
  by (simp add: secondPassStep_def Let_def dom_modify)

lemma roots_step:
  "snd (secondPassStep r st)
     = snd st @ (if attached (dom (fst st)) r then [] else [nid r])"
  by (auto simp: secondPassStep_def Let_def attached_def)

lemma children_step:
  "childrenOf (fst (secondPassStep r st)) k
     = childrenOf (fst st) k
       @ (if attached (dom (fst st)) r \<and> pid r = k then [nid r] else [])"
  by (auto simp: secondPassStep_def Let_def attached_def childrenOf_def modify_apply
           split: option.splits)



subsection \<open>The whole second pass\<close>

lemma dom_secondPass: "dom (fst (secondPass rs st)) = dom (fst st)"
  by (induction rs arbitrary: st) (simp_all add: secondPass_def dom_step)

lemma roots_secondPass:
  "snd (secondPass rs st)
     = snd st @ map nid (filter (\<lambda>r. \<not> attached (dom (fst st)) r) rs)"
proof (induction rs arbitrary: st)
  case Nil
  show ?case by (simp add: secondPass_def)
next
  case (Cons r rs)
  have "snd (secondPass (r # rs) st) = snd (secondPass rs (secondPassStep r st))"
    by (simp add: secondPass_def)
  also have "\<dots> = snd (secondPassStep r st)
      @ map nid (filter (\<lambda>r. \<not> attached (dom (fst st)) r) rs)"
    by (simp add: Cons.IH dom_step)
  finally show ?case by (simp add: roots_step)
qed

lemma children_secondPass:
  "childrenOf (fst (secondPass rs st)) k
     = childrenOf (fst st) k
       @ map nid (filter (\<lambda>r. attached (dom (fst st)) r \<and> pid r = k) rs)"
proof (induction rs arbitrary: st)
  case Nil
  show ?case by (simp add: secondPass_def)
next
  case (Cons r rs)
  have "childrenOf (fst (secondPass (r # rs) st)) k
      = childrenOf (fst (secondPass rs (secondPassStep r st))) k"
    by (simp add: secondPass_def)
  also have "\<dots> = childrenOf (fst (secondPassStep r st)) k
      @ map nid (filter (\<lambda>r. attached (dom (fst st)) r \<and> pid r = k) rs)"
    by (simp add: Cons.IH dom_step)
  finally show ?case by (simp add: children_step)
qed



subsection \<open>Roots and children of the finished hierarchy\<close>

lemma dom_nodeMapOf: "dom (nodeMapOf data) = nid ` set (uniqueData data)"
  by (simp add: nodeMapOf_def buildHierarchy_def Let_def dom_secondPass dom_firstPass)

lemma rootNodesOf_eq:
  "rootNodesOf data
     = map nid (filter (\<lambda>r. \<not> attached (nid ` set (uniqueData data)) r) (uniqueData data))"
  by (simp add: rootNodesOf_def buildHierarchy_def Let_def roots_secondPass dom_firstPass)

lemma childrenOf_nodeMapOf:
  "childrenOf (nodeMapOf data) k
     = map nid (filter (\<lambda>r. attached (nid ` set (uniqueData data)) r \<and> pid r = k)
                  (uniqueData data))"
  by (simp add: nodeMapOf_def buildHierarchy_def Let_def children_secondPass dom_firstPass
        childrenOf_firstPass)

lemma same_id_same_record:
  assumes "r \<in> set (uniqueData data)" and "r' \<in> set (uniqueData data)" and "nid r = nid r'"
  shows "r = r'"
  using assms uniqueData_distinct [of data]
  by (meson distinct_map inj_onD)

lemma child_has_parent:
  assumes "(p, c) \<in> childRel (nodeMapOf data)"
  obtains r where "r \<in> set (uniqueData data)" and "nid r = c" and "pid r = p"
    and "attached (nid ` set (uniqueData data)) r"
  using assms by (auto simp: childRel_def childrenOf_nodeMapOf)

lemma root_has_record:
  assumes "c \<in> set (rootNodesOf data)"
  obtains r where "r \<in> set (uniqueData data)" and "nid r = c"
    and "\<not> attached (nid ` set (uniqueData data)) r"
  using assms by (auto simp: rootNodesOf_eq)

lemma root_no_parent:
  assumes "c \<in> set (rootNodesOf data)"
  shows "(p, c) \<notin> childRel (nodeMapOf data)"
proof
  assume "(p, c) \<in> childRel (nodeMapOf data)"
  then obtain r where r: "r \<in> set (uniqueData data)" "nid r = c"
      "attached (nid ` set (uniqueData data)) r"
    by (rule child_has_parent)
  from assms obtain r' where r': "r' \<in> set (uniqueData data)" "nid r' = c"
      "\<not> attached (nid ` set (uniqueData data)) r'"
    by (rule root_has_record)
  from r r' have "r = r'" by (simp add: same_id_same_record)
  with r r' show False by simp
qed

lemma parent_unique:
  assumes "(p, c) \<in> childRel (nodeMapOf data)" and "(p', c) \<in> childRel (nodeMapOf data)"
  shows "p = p'"
proof -
  from assms(1) obtain r where r: "r \<in> set (uniqueData data)" "nid r = c" "pid r = p"
    by (rule child_has_parent)
  from assms(2) obtain r' where r': "r' \<in> set (uniqueData data)" "nid r' = c" "pid r' = p'"
    by (rule child_has_parent)
  from r r' have "r = r'" by (simp add: same_id_same_record)
  with r r' show ?thesis by simp
qed

subsection \<open>Claims about the hierarchy\<close>

text \<open>
  C4 fails on the code when a record comes before its parent's record and the parent is
  itself a child.  For the records \<^verbatim>\<open>[{id:3,pid:2}, {id:2,pid:1}, {id:1}]\<close> node 3 is
  attached to node 2 while node 2 still has level 0, so node 3 gets level 1; node 2 is
  then attached to node 1 and gets level 1 as well.  Node 3 is a child of node 2 and both
  have level 1.
\<close>

theorem level_child_before_parent:
  "JNum 3 \<in> set (childrenOf
      (nodeMapOf [\<lparr>nid = JNum 3, pid = JNum 2, name = ''c''\<rparr>,
                  \<lparr>nid = JNum 2, pid = JNum 1, name = ''b''\<rparr>,
                  \<lparr>nid = JNum 1, pid = JUndefined, name = ''a''\<rparr>]) (JNum 2))
   \<and> levelOf (nodeMapOf [\<lparr>nid = JNum 3, pid = JNum 2, name = ''c''\<rparr>,
                  \<lparr>nid = JNum 2, pid = JNum 1, name = ''b''\<rparr>,
                  \<lparr>nid = JNum 1, pid = JUndefined, name = ''a''\<rparr>]) (JNum 3) = 1
   \<and> levelOf (nodeMapOf [\<lparr>nid = JNum 3, pid = JNum 2, name = ''c''\<rparr>,
                  \<lparr>nid = JNum 2, pid = JNum 1, name = ''b''\<rparr>,
                  \<lparr>nid = JNum 1, pid = JUndefined, name = ''a''\<rparr>]) (JNum 2) = 1
   \<and> levelOf (nodeMapOf [\<lparr>nid = JNum 3, pid = JNum 2, name = ''c''\<rparr>,
                  \<lparr>nid = JNum 2, pid = JNum 1, name = ''b''\<rparr>,
                  \<lparr>nid = JNum 1, pid = JUndefined, name = ''a''\<rparr>]) (JNum 3)
       \<noteq> levelOf (nodeMapOf [\<lparr>nid = JNum 3, pid = JNum 2, name = ''c''\<rparr>,
                  \<lparr>nid = JNum 2, pid = JNum 1, name = ''b''\<rparr>,
                  \<lparr>nid = JNum 1, pid = JUndefined, name = ''a''\<rparr>]) (JNum 2) + 1"
  by (simp add: nodeMapOf_def buildHierarchy_def uniqueData_def firstPass_def secondPass_def
        secondPassStep_def modify_def levelOf_def childrenOf_def Let_def)

text \<open>
  C5 as stated fails: for \<^verbatim>\<open>[{id:1,pid:2}, {id:2,pid:1}]\<close> each node is pushed onto the
  other's children array, so node 1 reaches itself by children links.  The root list is
  empty.
\<close>

theorem mutual_parents_cycle:
  "(JNum 1, JNum 1) \<in> (childRel
      (nodeMapOf [\<lparr>nid = JNum 1, pid = JNum 2, name = ''a''\<rparr>,
                  \<lparr>nid = JNum 2, pid = JNum 1, name = ''b''\<rparr>]))\<^sup>+"
proof -
  let ?m = "nodeMapOf [\<lparr>nid = JNum 1, pid = JNum 2, name = ''a''\<rparr>,
                       \<lparr>nid = JNum 2, pid = JNum 1, name = ''b''\<rparr>]"
  have "childrenOf ?m (JNum 1) = [JNum 2]" and "childrenOf ?m (JNum 2) = [JNum 1]"
    by (simp_all add: nodeMapOf_def buildHierarchy_def uniqueData_def firstPass_def
          secondPass_def secondPassStep_def modify_def levelOf_def childrenOf_def Let_def)
  then have "(JNum 1, JNum 2) \<in> childRel ?m" and "(JNum 2, JNum 1) \<in> childRel ?m"
    by (simp_all add: childRel_def)
  then show ?thesis by (rule trancl_into_trancl2 [OF _ r_into_trancl])
qed

text \<open>
  C5 (amended).  For every input record list, no node reachable from the root list of
  the finished hierarchy reaches itself by children links: the chart hanging from
  \<^verbatim>\<open>rootNodes\<close> is acyclic.  (Records on a parent cycle do form a children cycle in the
  node map, but no root leads to them.)
\<close>

theorem reachable_acyclic:
  assumes "reachable (nodeMapOf data) (rootNodesOf data) c"
  shows "(c, c) \<notin> (childRel (nodeMapOf data))\<^sup>+"
  using assms
proof (induction rule: reachable.induct)
  case (reach_root c)
  show ?case
  proof
    assume "(c, c) \<in> (childRel (nodeMapOf data))\<^sup>+"
    then obtain q where "(q, c) \<in> childRel (nodeMapOf data)"
      by (auto dest: tranclD2)
    with root_no_parent [OF reach_root] show False by simp
  qed
next
  case (reach_child p c)
  from reach_child.hyps(2) have pc: "(p, c) \<in> childRel (nodeMapOf data)"
    by (simp add: childRel_def)
  show ?case
  proof
    assume "(c, c) \<in> (childRel (nodeMapOf data))\<^sup>+"
    then obtain q where q: "(c, q) \<in> (childRel (nodeMapOf data))\<^sup>*"
        "(q, c) \<in> childRel (nodeMapOf data)"
      by (auto dest: tranclD2)
    from q(2) pc have "q = p" by (rule parent_unique)
    with q(1) pc have "(p, p) \<in> (childRel (nodeMapOf data))\<^sup>+"
      by (simp add: rtrancl_into_trancl2)
    with reach_child.IH show False by simp
  qed
qed

theorem reachable_acyclic_witness:
  "reachable
     (nodeMapOf [\<lparr>nid = JNum 1, pid = JNull, name = ''a''\<rparr>,
                 \<lparr>nid = JNum 2, pid = JNum 1, name = ''b''\<rparr>,
                 \<lparr>nid = JNum 3, pid = JNum 4, name = ''c''\<rparr>,
                 \<lparr>nid = JNum 4, pid = JNum 3, name = ''d''\<rparr>])
     (rootNodesOf [\<lparr>nid = JNum 1, pid = JNull, name = ''a''\<rparr>,
                 \<lparr>nid = JNum 2, pid = JNum 1, name = ''b''\<rparr>,
                 \<lparr>nid = JNum 3, pid = JNum 4, name = ''c''\<rparr>,
                 \<lparr>nid = JNum 4, pid = JNum 3, name = ''d''\<rparr>]) (JNum 2)
   \<and> (JNum 2, JNum 2) \<notin> (childRel
     (nodeMapOf [\<lparr>nid = JNum 1, pid = JNull, name = ''a''\<rparr>,
                 \<lparr>nid = JNum 2, pid = JNum 1, name = ''b''\<rparr>,
                 \<lparr>nid = JNum 3, pid = JNum 4, name = ''c''\<rparr>,
                 \<lparr>nid = JNum 4, pid = JNum 3, name = ''d''\<rparr>]))\<^sup>+"
proof -
  let ?d = "[\<lparr>nid = JNum 1, pid = JNull, name = ''a''\<rparr>,
             \<lparr>nid = JNum 2, pid = JNum 1, name = ''b''\<rparr>,
             \<lparr>nid = JNum 3, pid = JNum 4, name = ''c''\<rparr>,
             \<lparr>nid = JNum 4, pid = JNum 3, name = ''d''\<rparr>]"
  have "rootNodesOf ?d = [JNum 1]"
    by (simp add: rootNodesOf_eq uniqueData_def attached_def)
  then have "reachable (nodeMapOf ?d) (rootNodesOf ?d) (JNum 1)"
    by (simp add: reach_root)
  moreover have "JNum 2 \<in> set (childrenOf (nodeMapOf ?d) (JNum 1))"
    by (simp add: childrenOf_nodeMapOf uniqueData_def attached_def)
  ultimately have r: "reachable (nodeMapOf ?d) (rootNodesOf ?d) (JNum 2)"
    by (rule reach_child)
  from r reachable_acyclic [OF r] show ?thesis by simp
qed



section \<open>Initial expansion\<close>

lemma ids_depths:
  "map fst (depths_of n d) = ids_of (n :: 'i node)"
  "map fst (depths_forest ns d) = ids_forest (ns :: 'i node list)"
  by (induction n d and ns d rule: depths_of_depths_forest.induct) simp_all

lemma depth_id_in_forest: "(i, d) \<in> set (depths_forest ns l) \<Longrightarrow> i \<in> set (ids_forest ns)"
  using ids_depths(2) [of ns l] by (metis fst_conv image_eqI set_map)

lemma depth_id_in_node: "(i, d) \<in> set (depths_of n l) \<Longrightarrow> i \<in> set (ids_of n)"
  using ids_depths(1) [of n l] by (metis fst_conv image_eqI set_map)

lemma configure_frame:
  "i \<notin> set (ids_forest ns) \<Longrightarrow> configureExpansion pol ns l m i = m i"
  "i \<notin> set (ids_of n) \<Longrightarrow> configureNode pol n l m i = m i"
  by (induction pol ns l m and pol n l m rule: configureExpansion_configureNode.induct)
     (simp_all add: Let_def)

lemma configure_entry:
  "distinct (ids_forest ns) \<Longrightarrow> (i, d) \<in> set (depths_forest ns l) \<Longrightarrow>
     configureExpansion pol ns l m i = Some (pol d)"
  "distinct (ids_of n) \<Longrightarrow> (i, d) \<in> set (depths_of n l) \<Longrightarrow>
     configureNode pol n l m i = Some (pol d)"
proof (induction pol ns l m and pol n l m rule: configureExpansion_configureNode.induct)
  case (1 pol lvl m)
  then show ?case by simp
next
  case (2 pol n ns lvl m)
  from "2.prems"(2) consider "(i, d) \<in> set (depths_of n lvl)"
    | "(i, d) \<in> set (depths_forest ns lvl)"
    by auto
  then show ?case
  proof cases
    case 1
    then have "i \<in> set (ids_of n)" by (rule depth_id_in_node)
    with "2.prems"(1) have "i \<notin> set (ids_forest ns)" by auto
    then have "configureExpansion pol ns lvl (configureNode pol n lvl m) i
        = configureNode pol n lvl m i"
      by (rule configure_frame)
    with 1 "2.prems"(1) "2.IH"(1) show ?thesis by simp
  next
    case 2
    with "2.prems"(1) "2.IH"(2) show ?thesis by simp
  qed
next
  case (3 pol j nm cs lvl m)
  from "3.prems"(2) consider "i = j" "d = lvl"
    | "(i, d) \<in> set (depths_forest cs (lvl + 1))"
    by auto
  then show ?case
  proof cases
    case 1
    with "3.prems"(1) have "i \<notin> set (ids_forest cs)" by simp
    then have "configureExpansion pol cs (lvl + 1) (m(j \<mapsto> pol lvl)) i
        = (m(j \<mapsto> pol lvl)) i"
      by (rule configure_frame)
    with 1 show ?thesis by (simp add: Let_def)
  next
    case 2
    then have ne: "cs \<noteq> []" by auto
    from "3.prems"(1) have dc: "distinct (ids_forest cs)" by simp
    have "configureExpansion pol cs (lvl + 1) (m(j \<mapsto> pol lvl)) i = Some (pol d)"
      by (rule "3.IH" [OF refl refl ne dc 2])
    with ne show ?thesis by (simp add: Let_def)
  qed
qed

text \<open>
  C6 (initial expansion policy).  In a tree whose ids are pairwise distinct, the entry
  written for a node at depth \<open>d\<close> is \<open>initiallyExpanded \<or> d < initialVisibleLevels\<close> in
  the HTML variant and \<open>initiallyExpanded \<and> d < initialVisibleLevels\<close> in SimpleOrgChart,
  whatever the map held before.  With the default options the HTML variant marks the
  roots expanded and SimpleOrgChart marks every node collapsed.
\<close>

theorem initial_expansion_policy:
  assumes "distinct (ids_forest hierarchicalData)"
    and "(i, d) \<in> set (depths_forest hierarchicalData 0)"
  shows "configureInitialExpansion_html opts hierarchicalData m0 i
           = Some (initiallyExpanded opts \<or> int d < initialVisibleLevels opts)
       \<and> configureInitialExpansion_simple opts hierarchicalData m0 i
           = Some (initiallyExpanded opts \<and> int d < initialVisibleLevels opts)
       \<and> configureInitialExpansion_html defaultOptions hierarchicalData m0 i = Some (d = 0)
       \<and> configureInitialExpansion_simple defaultOptions hierarchicalData m0 i = Some False"
  using configure_entry(1) [OF assms]
  by (simp add: configureInitialExpansion_html_def configureInitialExpansion_simple_def
        expanded_html_def expanded_simple_def defaultOptions_def)

theorem initial_expansion_policy_witness:
  "configureInitialExpansion_html defaultOptions
      [Node (1::nat) ''Ann'' [Node 2 ''Bob'' [], Node 3 ''Cid'' []]] Map.empty 1 = Some True
   \<and> configureInitialExpansion_simple defaultOptions
      [Node (1::nat) ''Ann'' [Node 2 ''Bob'' [], Node 3 ''Cid'' []]] Map.empty 1 = Some False
   \<and> configureInitialExpansion_html defaultOptions
      [Node (1::nat) ''Ann'' [Node 2 ''Bob'' [], Node 3 ''Cid'' []]] Map.empty 3 = Some False"
proof -
  let ?f = "[Node (1::nat) ''Ann'' [Node 2 ''Bob'' [], Node 3 ''Cid'' []]]"
  have a: "distinct (ids_forest ?f)" by simp
  have b: "(1, 0) \<in> set (depths_forest ?f 0)" by simp
  have c: "(3, 1) \<in> set (depths_forest ?f 0)" by simp
  from initial_expansion_policy [OF a b, of defaultOptions Map.empty]
    initial_expansion_policy [OF a c, of defaultOptions Map.empty]
  show ?thesis by (simp add: defaultOptions_def)
qed

section \<open>Sorting siblings\<close>

























section \<open>Layout: what assignXPositions writes\<close>

lemmas layout_ops = ensureLevel_def pushNode_def setPosition_def

lemma fold_min_Min: "fold min xr (x0 :: real) = Min (set (x0 # xr))"
  by (simp only: Min.set_eq_fold)

lemma fold_max_Max: "fold max xr (x0 :: real) = Max (set (x0 # xr))"
  by (simp only: Max.set_eq_fold)

text \<open>One iteration of the second loop writes one position, that of the entry itself.\<close>

lemma secondPassX_step:
  "\<exists>xv.
     secondPassX opts (h # rest) i E lvl st
       = secondPassX opts rest (i + 1) E lvl (setPosition (info_id h) xv lvl st)
     \<and> (info_children h = [] \<longrightarrow> xv = defaultX opts E i)
     \<and> (info_children h \<noteq> [] \<longrightarrow>
           xv = (Min (set (map (\<lambda>c. xOrZero (nodePositions st) (info_id c)) (info_children h)))
                 + Max (set (map (\<lambda>c. xOrZero (nodePositions st) (info_id c)) (info_children h))))
                / 2)"
proof (cases "info_children h")
  case Nil
  then have "secondPassX opts (h # rest) i E lvl st
      = secondPassX opts rest (i + 1) E lvl (setPosition (info_id h) (defaultX opts E i) lvl st)"
    by (simp add: info_id_def)
  then show ?thesis
  proof (intro exI conjI impI)
    show "defaultX opts E i = defaultX opts E i" by (rule refl)
  qed (simp_all add: Nil)
next
  case (Cons c0 cr)
  let ?xs = "map (\<lambda>c. xOrZero (nodePositions st) (info_id c)) (info_children h)"
  from Cons have eq: "secondPassX opts (h # rest) i E lvl st
      = secondPassX opts rest (i + 1) E lvl
          (setPosition (info_id h) ((Min (set ?xs) + Max (set ?xs)) / 2) lvl st)"
    by (simp add: info_id_def Let_def fold_min_Min fold_max_Max)
  show ?thesis
  proof (intro exI conjI impI)
    show "secondPassX opts (h # rest) i E lvl st
      = secondPassX opts rest (i + 1) E lvl
          (setPosition (info_id h) ((Min (set ?xs) + Max (set ?xs)) / 2) lvl st)"
      by (rule eq)
    show "(Min (set ?xs) + Max (set ?xs)) / 2 = defaultX opts E i" if "info_children h = []"
      using that Cons by simp
    show "(Min (set ?xs) + Max (set ?xs)) / 2 = (Min (set ?xs) + Max (set ?xs)) / 2"
      by (rule refl)
  qed
qed

declare secondPassX.simps(2) [simp del]


lemma secondPassX_levels:
  "nodesAtLevel (secondPassX opts infos i E lvl st) = nodesAtLevel st
   \<and> nodesAtLevel_length (secondPassX opts infos i E lvl st) = nodesAtLevel_length st"
proof (induction infos arbitrary: i st)
  case Nil
  show ?case by simp
next
  case (Cons h rest)
  obtain xv where step: "secondPassX opts (h # rest) i E lvl st
      = secondPassX opts rest (i + 1) E lvl (setPosition (info_id h) xv lvl st)"
    and leaf: "info_children h = [] \<Longrightarrow> xv = defaultX opts E i"
    and inner: "info_children h \<noteq> [] \<Longrightarrow>
           xv = (Min (set (map (\<lambda>c. xOrZero (nodePositions st) (info_id c)) (info_children h)))
                 + Max (set (map (\<lambda>c. xOrZero (nodePositions st) (info_id c)) (info_children h))))
                / 2"
    using secondPassX_step [of opts h rest i E lvl st] by blast
  with Cons show ?case by (simp add: setPosition_def)
qed






section \<open>Layout: parents centred by assignXPositions\<close>













section \<open>Layout: the visible nodes by level\<close>









lemma level_nodes_member: "n \<in> set (level_nodes ex f d) \<longleftrightarrow> (n, d) \<in> set (vnodes ex f 0)"
  by (auto simp: level_nodes_def image_iff)


section \<open>Layout: what assignXPositions leaves in nodesAtLevel and nodePositions\<close>

lemma inodes_ids:
  "map vid (inodes_of h d) = info_ids_of (h :: 'i info)"
  "map vid (inodes hs d) = info_ids (hs :: 'i info list)"
  by (induction h d and hs d rule: inodes_of_inodes.induct) (simp_all add: vid_def)

lemma build_inodes:
  "inodes (fst (buildVisibleTree opts ex ns lvl)) lvl = vnodes ex ns lvl"
  "inodes (fst (buildLoop opts ex ns lvl)) lvl = vnodes ex ns lvl"
  "inodes_of (buildInfo opts ex n lvl) lvl = vnodes_of ex n lvl"
proof (induction opts ex ns lvl and opts ex ns lvl and opts ex n lvl
       rule: buildVisibleTree_buildLoop_buildInfo.induct)
  case (1 opts ex nodes lvl)
  then show ?case by (simp add: Let_def)
next
  case (2 opts ex lvl)
  show ?case by simp
next
  case (3 opts ex n ns lvl)
  from "3.IH"(1) "3.IH"(2) [OF refl] show ?case
    by (simp add: Let_def)
next
  case (4 opts ex i nm cs lvl)
  show ?case
  proof (cases "cs \<noteq> [] \<and> ex i = Some True")
    case True
    with "4.IH" [OF refl True] show ?thesis
      by (simp add: Let_def)
  next
    case False
    then show ?thesis by (auto simp: Let_def)
  qed
qed

lemma assign_levels:
  "nodesAtLevel (assignXPositions opts treeNodes startX lvl st) d
     = nodesAtLevel st d @ map fst (filter (\<lambda>p. snd p = d) (inodes treeNodes lvl))"
  "nodesAtLevel (fst (firstPassX opts treeNodes startX lvl st)) d
     = nodesAtLevel st d @ map fst (filter (\<lambda>p. snd p = d) (inodes treeNodes lvl))"
proof (induction opts treeNodes startX lvl st and opts treeNodes startX lvl st
       rule: assignXPositions_firstPassX.induct)
  case (1 opts treeNodes startX lvl st)
  then show ?case
    by (simp add: Let_def secondPassX_levels) (simp add: ensureLevel_def)
next
  case (2 opts startX lvl st)
  show ?case by simp
next
  case (3 opts n cs w l rest startX lvl st)
  show ?case
  proof (cases "cs = []")
    case True
    then have nn: "\<not> cs \<noteq> []" by simp
    from True "3.IH"(3) [OF refl nn refl] show ?thesis
      by (simp add: Let_def layout_ops)
  next
    case False
    with "3.IH"(1) [OF refl False refl refl] "3.IH"(2) [OF refl False refl refl refl]
    show ?thesis
      by (simp add: Let_def layout_ops)
  qed
qed


lemma secondPassX_dom:
  "dom (nodePositions (secondPassX opts infos i E lvl st))
     = dom (nodePositions st) \<union> info_id ` set infos"
proof (induction infos arbitrary: i st)
  case Nil
  show ?case by simp
next
  case (Cons h rest)
  obtain xv where step: "secondPassX opts (h # rest) i E lvl st
      = secondPassX opts rest (i + 1) E lvl (setPosition (info_id h) xv lvl st)"
    using secondPassX_step [of opts h rest i E lvl st] by blast
  show ?case
    by (simp add: step Cons.IH) (auto simp: setPosition_def)
qed

lemma info_ids_split:
  "set (info_ids infos)
     = info_id ` set infos \<union> (\<Union>h \<in> set infos. set (info_ids (info_children h)))"
proof (induction infos)
  case Nil
  show ?case by simp
next
  case (Cons h rest)
  obtain n cs w l where "h = Info n cs w l" by (cases h)
  with Cons show ?case by (auto simp: info_id_def)
qed

declare assignXPositions.simps [simp del]

lemma assign_dom:
  "dom (nodePositions st) \<union> set (info_ids treeNodes)
     \<subseteq> dom (nodePositions (assignXPositions opts treeNodes startX lvl st))"
  "dom (nodePositions st) \<union> (\<Union>h \<in> set treeNodes. set (info_ids (info_children h)))
     \<subseteq> dom (nodePositions (fst (firstPassX opts treeNodes startX lvl st)))"
proof (induction opts treeNodes startX lvl st and opts treeNodes startX lvl st
       rule: assignXPositions_firstPassX.induct)
  case (1 opts treeNodes startX lvl st)
  let ?fp = "firstPassX opts treeNodes startX lvl (ensureLevel lvl st)"
  have "nodePositions (ensureLevel lvl st) = nodePositions st"
    by (simp add: ensureLevel_def)
  with "1.IH" have a: "dom (nodePositions st)
      \<union> (\<Union>h \<in> set treeNodes. set (info_ids (info_children h)))
      \<subseteq> dom (nodePositions (fst ?fp))"
    by simp
  have b: "dom (nodePositions (assignXPositions opts treeNodes startX lvl st))
      = dom (nodePositions (fst ?fp)) \<union> info_id ` set treeNodes"
    by (simp add: assignXPositions.simps Let_def secondPassX_dom)
  from a show ?case
    unfolding b info_ids_split [of treeNodes] by blast
next
  case (2 opts startX lvl st)
  show ?case by simp
next
  case (3 opts n cs w l rest startX lvl st)
  show ?case
  proof (cases "cs = []")
    case True
    then have nn: "\<not> cs \<noteq> []" by simp
    from True "3.IH"(3) [OF refl nn refl] show ?thesis
      by (simp add: Let_def) (auto simp: layout_ops)
  next
    case False
    let ?sx = "if calculateTotalWidth opts cs < nodeWidth opts
      then startX + (nodeWidth opts - calculateTotalWidth opts cs) / 2 else startX"
    let ?st1 = "pushNode lvl n st"
    let ?st2 = "assignXPositions opts cs ?sx (lvl + 1) ?st1"
    let ?fin = "fst (firstPassX opts rest (startX + (w + horizontalSpacing opts)) lvl ?st2)"
    have fin: "fst (firstPassX opts (Info n cs w l # rest) startX lvl st) = ?fin"
      using False by (simp add: Let_def)
    have a: "dom (nodePositions ?st1) \<union> set (info_ids cs) \<subseteq> dom (nodePositions ?st2)"
      using "3.IH"(1) [OF refl False refl refl] by simp
    have b: "dom (nodePositions ?st2) \<union> (\<Union>h \<in> set rest. set (info_ids (info_children h)))
        \<subseteq> dom (nodePositions ?fin)"
      using "3.IH"(2) [OF refl False refl refl refl] by simp
    have c: "nodePositions ?st1 = nodePositions st"
      by (simp add: pushNode_def)
    from a c have a1: "dom (nodePositions st) \<subseteq> dom (nodePositions ?st2)"
      and a2: "set (info_ids cs) \<subseteq> dom (nodePositions ?st2)"
      by simp_all
    from b have b1: "dom (nodePositions ?st2) \<subseteq> dom (nodePositions ?fin)"
      and b2: "(\<Union>h \<in> set rest. set (info_ids (info_children h)))
        \<subseteq> dom (nodePositions ?fin)"
      by simp_all
    from a1 b1 have "dom (nodePositions st) \<subseteq> dom (nodePositions ?fin)"
      by (rule order_trans)
    moreover from a2 b1 have "set (info_ids cs) \<subseteq> dom (nodePositions ?fin)"
      by (rule order_trans)
    ultimately show ?thesis
      using b2
      unfolding fin by simp
  qed
qed

declare buildVisibleTree.simps [simp del]

lemma assigned_levels: "nodesAtLevel (assignedLayout opts ex f) d = level_nodes ex f d"
  by (simp add: assignedLayout_def Let_def assign_levels(1) build_inodes(1) emptyLayout_def
        level_nodes_def)


lemma assigned_dom:
  assumes "(n, d) \<in> set (vnodes ex f 0)"
  shows "node_id n \<in> dom (nodePositions (assignedLayout opts ex f))"
proof -
  let ?t = "fst (buildVisibleTree opts ex f 0)"
  from assms have "vid (n, d) \<in> set (map vid (inodes ?t 0))"
    by (simp add: build_inodes(1))
  then have "node_id n \<in> set (info_ids ?t)"
    by (simp add: inodes_ids(2) vid_def)
  with assign_dom(1) [of emptyLayout ?t opts "horizontalSpacing opts" 0]
  show ?thesis
    by (auto simp: assignedLayout_def Let_def)
qed

section \<open>Layout: moving a node with its visible subtree\<close>











section \<open>Layout: the collision scan of one level\<close>






section \<open>Layout: the loop over the levels\<close>

lemma level_nodes_positioned:
  assumes "n \<in> set (nodesAtLevel (assignedLayout opts ex f) d)"
  shows "node_id n \<in> dom (nodePositions (assignedLayout opts ex f))"
proof -
  from assms have "(n, d) \<in> set (vnodes ex f 0)"
    by (simp add: assigned_levels level_nodes_member)
  then show ?thesis by (rule assigned_dom)
qed




end
